theory Spec2Isabelle
  imports Main "HOL-Library.Word"
begin

section \<open>Strings and character classes\<close>

text \<open>
  A Python \<open>str\<close> is a sequence of code points and \<open>len\<close> counts code points. The
  development represents the code points U+0000 to U+00FF, one \<open>char\<close> for each
  (\<open>of_char c\<close> is the code point of \<open>c\<close>), so \<open>length\<close> counts what \<open>len\<close> counts.
  The character classes below are the ones of Python 3 on that range.
\<close>

definition in_range :: "nat \<Rightarrow> nat \<Rightarrow> char \<Rightarrow> bool" where
  "in_range lo hi c = (lo \<le> of_char c \<and> (of_char c :: nat) \<le> hi)"

text \<open>\<open>str.isspace\<close> on one character; also the characters that \<open>str.strip()\<close> removes
  and that \<open>\s\<close> matches in a \<open>str\<close> pattern.\<close>

definition isspace :: "char \<Rightarrow> bool" where
  "isspace c = (in_range 0x09 0x0D c \<or> in_range 0x1C 0x20 c \<or> in_range 0x85 0x85 c
     \<or> in_range 0xA0 0xA0 c)"

text \<open>The characters of \<open>[0-9]\<close>, \<open>[A-Z]\<close> and \<open>[a-z]\<close>.\<close>

definition ascii_digit :: "char \<Rightarrow> bool" where
  "ascii_digit c = in_range 0x30 0x39 c"

definition ascii_upper :: "char \<Rightarrow> bool" where
  "ascii_upper c = in_range 0x41 0x5A c"

definition ascii_lower :: "char \<Rightarrow> bool" where
  "ascii_lower c = in_range 0x61 0x7A c"

definition ascii_alnum :: "char \<Rightarrow> bool" where
  "ascii_alnum c = (ascii_digit c \<or> ascii_upper c \<or> ascii_lower c)"

text \<open>\<open>str.isalnum\<close> on one character: the letters (categories L*) and the characters
  with a decimal, digit or numeric value. Beyond ASCII these are the ordinal indicators,
  the superscript digits, the micro sign, the vulgar fractions and the accented letters
  (all of U+00C0 to U+00FF but the multiplication and the division sign).\<close>

definition isalnum_char :: "char \<Rightarrow> bool" where
  "isalnum_char c = (ascii_alnum c \<or> in_range 0xAA 0xAA c \<or> in_range 0xB2 0xB3 c
     \<or> in_range 0xB5 0xB5 c \<or> in_range 0xB9 0xBA c \<or> in_range 0xBC 0xBE c
     \<or> in_range 0xC0 0xD6 c \<or> in_range 0xD8 0xF6 c \<or> in_range 0xF8 0xFF c)"

text \<open>\<open>s.isalnum()\<close>: every character is alphanumeric and there is at least one.\<close>

definition isalnum :: "string \<Rightarrow> bool" where
  "isalnum s = (s \<noteq> [] \<and> list_all isalnum_char s)"

text \<open>\<open>str.lower\<close> on one ASCII character (used for case-insensitive matching).\<close>

definition ascii_tolower :: "char \<Rightarrow> char" where
  "ascii_tolower c = (if ascii_upper c then char_of (of_char c + (32::nat)) else c)"

definition lstrip :: "string \<Rightarrow> string" where
  "lstrip s = dropWhile isspace s"

definition rstrip :: "string \<Rightarrow> string" where
  "rstrip s = rev (dropWhile isspace (rev s))"

text \<open>\<open>s.strip()\<close>\<close>

definition strip :: "string \<Rightarrow> string" where
  "strip s = rstrip (lstrip s)"

text \<open>\<open>s.startswith(p)\<close>\<close>

definition startswith :: "string \<Rightarrow> string \<Rightarrow> bool" where
  "startswith s p = (take (length p) s = p)"

section \<open>utils.py: sanitize_url and validate_short_code\<close>

text \<open>
  \<^verbatim>\<open>
  def sanitize_url(url):
      if not url:
          return ""
      url = url.strip()
      if url and not url.startswith(('http://', 'https://')):
          url = 'http://' + url
      return url
  \<close>
\<close>

definition sanitize_url :: "string \<Rightarrow> string" where
  "sanitize_url url =
     (if url = [] then []
      else let u = strip url in
        if u \<noteq> [] \<and> \<not> (startswith u ''http://'' \<or> startswith u ''https://'')
        then ''http://'' @ u
        else u)"

text \<open>
  \<^verbatim>\<open>
  def validate_short_code(short_code):
      if not short_code or not isinstance(short_code, str):
          return False
      if len(short_code) != 6:
          return False
      return short_code.isalnum()
  \<close>
\<close>

definition validate_short_code :: "string \<Rightarrow> bool" where
  "validate_short_code short_code =
     (if short_code = [] then False
      else if length short_code \<noteq> 6 then False
      else isalnum short_code)"

section \<open>Regular expressions of the \<open>re\<close> module\<close>

text \<open>
  The fragment of the pattern syntax that \<open>url_pattern\<close> uses: literal characters,
  character sets, \<open>\d\<close>, \<open>\S\<close>, concatenation, alternation and the repetitions
  \<open>?\<close>, \<open>+\<close>, \<open>{m,n}\<close>.
\<close>

datatype cset = Range char char | Single char

datatype regex =
    Eps
  | Lit char
  | CharSet "cset list"
  | Digit
  | NonSpace
  | Cat regex regex
  | Alt regex regex
  | Repeat nat "nat option" regex

text \<open>\<open>re.IGNORECASE\<close>: a literal or a set matches a character when it matches the
  character or its other case. On the code points up to U+00FF the ASCII letters have no
  case variant other than their ASCII one.\<close>

definition ascii_toupper :: "char \<Rightarrow> char" where
  "ascii_toupper c = (if ascii_lower c then char_of (of_char c - (32::nat)) else c)"

fun in_cset :: "char \<Rightarrow> cset \<Rightarrow> bool" where
  "in_cset c (Range lo hi) = in_range (of_char lo) (of_char hi) c"
| "in_cset c (Single d) = (c = d)"

definition in_csets :: "bool \<Rightarrow> cset list \<Rightarrow> char \<Rightarrow> bool" where
  "in_csets icase cs c =
     (if icase then list_ex (in_cset c) cs \<or> list_ex (in_cset (ascii_tolower c)) cs
                   \<or> list_ex (in_cset (ascii_toupper c)) cs
      else list_ex (in_cset c) cs)"

text \<open>One character against a predicate: the remainders after the match.\<close>

fun match_char :: "(char \<Rightarrow> bool) \<Rightarrow> string \<Rightarrow> string list" where
  "match_char p [] = []"
| "match_char p (c # cs) = (if p c then [cs] else [])"

text \<open>
  \<open>reps f lo n ss\<close>: \<open>ss\<close> are the remainders after the iterations done so far,
  \<open>lo\<close> iterations are still required and \<open>n\<close> more are allowed; \<open>f\<close> matches
  the body once. The result collects the remainders of every admissible number of
  iterations.
\<close>

fun reps :: "(string \<Rightarrow> string list) \<Rightarrow> nat \<Rightarrow> nat \<Rightarrow> string list \<Rightarrow> string list" where
  "reps f lo 0 ss = (if lo = 0 then ss else [])"
| "reps f lo (Suc n) ss =
     (if lo = 0 then ss else []) @
     (if ss = [] then [] else reps f (lo - 1) n (remdups (concat (map f ss))))"

text \<open>
  \<open>rmatch icase r s\<close>: the remainders of \<open>s\<close> after each prefix of \<open>s\<close> that \<open>r\<close>
  matches. A backtracking matcher finds a match exactly when one exists, so the list is
  what the search of \<open>re\<close> explores. An unbounded repetition is cut after
  \<open>lo + length s\<close> iterations: a further iteration that yields a new remainder consumes
  a character.
\<close>

primrec rmatch :: "bool \<Rightarrow> regex \<Rightarrow> string \<Rightarrow> string list" where
  "rmatch icase Eps s = [s]"
| "rmatch icase (Lit d) s =
     match_char (\<lambda>c. if icase then ascii_tolower c = ascii_tolower d else c = d) s"
| "rmatch icase (CharSet cs) s = match_char (in_csets icase cs) s"
| "rmatch icase Digit s = match_char ascii_digit s"
| "rmatch icase NonSpace s = match_char (\<lambda>c. \<not> isspace c) s"
| "rmatch icase (Cat a b) s = remdups (concat (map (rmatch icase b) (rmatch icase a s)))"
| "rmatch icase (Alt a b) s = remdups (rmatch icase a s @ rmatch icase b s)"
| "rmatch icase (Repeat lo hi a) s =
     reps (rmatch icase a) lo
       (case hi of None \<Rightarrow> lo + length s | Some h \<Rightarrow> h) [s]"

text \<open>\<open>pattern.match(s)\<close> for a pattern of the shape \<open>^r$\<close>: the match starts at the
  beginning, and \<open>$\<close> matches at the end of the string or just before a newline that
  ends the string.\<close>

definition re_match_anchored :: "bool \<Rightarrow> regex \<Rightarrow> string \<Rightarrow> bool" where
  "re_match_anchored icase r s =
     list_ex (\<lambda>rest. rest = [] \<or> rest = [CHR 0x0A]) (rmatch icase r s)"

definition cat :: "regex list \<Rightarrow> regex" where
  "cat rs = foldr Cat rs Eps"

definition lit :: "string \<Rightarrow> regex" where
  "lit s = cat (map Lit s)"

definition optional :: "regex \<Rightarrow> regex" where
  "optional r = Repeat 0 (Some 1) r"

definition one_or_more :: "regex \<Rightarrow> regex" where
  "one_or_more r = Repeat 1 None r"

section \<open>utils.py: is_valid_url\<close>

text \<open>
  \<^verbatim>\<open>
  url_pattern = re.compile(
      r'^https?://'
      r'(?:(?:[A-Z0-9](?:[A-Z0-9-]{0,61}[A-Z0-9])?\.)+[A-Z]{2,6}\.?|'
      r'localhost|'
      r'\d{1,3}\.\d{1,3}\.\d{1,3}\.\d{1,3})'
      r'(?::\d+)?'
      r'(?:/?|[/?]\S+)$', re.IGNORECASE)
  \<close>
\<close>

definition alnum_set :: regex where
  "alnum_set = CharSet [Range CHR ''A'' CHR ''Z'', Range CHR ''0'' CHR ''9'']"

definition alnum_dash_set :: regex where
  "alnum_dash_set =
     CharSet [Range CHR ''A'' CHR ''Z'', Range CHR ''0'' CHR ''9'', Single CHR ''-'']"

definition domain_label :: regex where
  "domain_label =
     cat [alnum_set,
          optional (cat [Repeat 0 (Some 61) alnum_dash_set, alnum_set]),
          Lit CHR ''.'']"

definition domain_name :: regex where
  "domain_name =
     cat [one_or_more domain_label,
          Repeat 2 (Some 6) (CharSet [Range CHR ''A'' CHR ''Z'']),
          optional (Lit CHR ''.'')]"

definition ipv4 :: regex where
  "ipv4 =
     cat [Repeat 1 (Some 3) Digit, Lit CHR ''.'', Repeat 1 (Some 3) Digit, Lit CHR ''.'',
          Repeat 1 (Some 3) Digit, Lit CHR ''.'', Repeat 1 (Some 3) Digit]"

definition url_pattern :: regex where
  "url_pattern =
     cat [lit ''http'', optional (Lit CHR ''s''), lit ''://'',
          Alt domain_name (Alt (lit ''localhost'') ipv4),
          optional (cat [Lit CHR '':'', one_or_more Digit]),
          Alt (optional (Lit CHR ''/''))
              (cat [CharSet [Single CHR ''/'', Single CHR ''?''], one_or_more NonSpace])]"

text \<open>
  \<open>urlparse(url)\<close> of \<open>urllib.parse\<close>, as far as \<open>scheme\<close> and \<open>netloc\<close>:
  leading C0 controls and spaces are stripped, tabs and line breaks are removed, the
  scheme is the text before the first colon when it starts with an ASCII letter and has
  only scheme characters, and the netloc is what follows \<open>//\<close> up to the first of
  \<open>/ ? #\<close>. \<open>None\<close> is the \<open>ValueError\<close> of a netloc with one square bracket and
  not the other. The checks of a host in brackets and of a netloc with characters beyond
  ASCII are not modelled: \<open>is_valid_url\<close> calls \<open>urlparse\<close> only on a string that
  \<open>url_pattern\<close> matches, whose netloc has letters, digits, dots, dashes and colons
  only.
\<close>

definition scheme_char :: "char \<Rightarrow> bool" where
  "scheme_char c = (ascii_alnum c \<or> c = CHR ''+'' \<or> c = CHR ''-'' \<or> c = CHR ''.'')"

definition urlparse :: "string \<Rightarrow> (string \<times> string) option" where
  "urlparse url0 =
     (let url1 = dropWhile (in_range 0x00 0x20) url0;
          url2 = filter (\<lambda>c. c \<noteq> CHR 0x09 \<and> c \<noteq> CHR 0x0D \<and> c \<noteq> CHR 0x0A) url1;
          pre = takeWhile (\<lambda>c. c \<noteq> CHR '':'') url2;
          has_scheme = (length pre < length url2 \<and> pre \<noteq> []
                        \<and> (ascii_upper (hd pre) \<or> ascii_lower (hd pre))
                        \<and> list_all scheme_char pre);
          scheme = (if has_scheme then map ascii_tolower pre else []);
          url3 = (if has_scheme then drop (length pre + 1) url2 else url2);
          netloc = (if take 2 url3 = ''//''
                    then takeWhile (\<lambda>c. c \<noteq> CHR ''/'' \<and> c \<noteq> CHR ''?'' \<and> c \<noteq> CHR ''#'')
                           (drop 2 url3)
                    else [])
      in if (CHR ''['' \<in> set netloc) \<noteq> (CHR '']'' \<in> set netloc) then None
         else Some (scheme, netloc))"

text \<open>
  \<^verbatim>\<open>
  def is_valid_url(url):
      if not url or not isinstance(url, str):
          return False
      url_pattern = re.compile(...)
      if not url_pattern.match(url):
          return False
      try:
          parsed = urlparse(url)
          return all([parsed.scheme, parsed.netloc])
      except Exception:
          return False
  \<close>
\<close>

definition is_valid_url :: "string \<Rightarrow> bool" where
  "is_valid_url url =
     (if url = [] then False
      else if \<not> re_match_anchored True url_pattern url then False
      else case urlparse url of
             None \<Rightarrow> False
           | Some (scheme, netloc) \<Rightarrow> scheme \<noteq> [] \<and> netloc \<noteq> [])"

section \<open>models.py: the table of URL mappings\<close>

text \<open>
  \<^verbatim>\<open>
  CREATE TABLE IF NOT EXISTS urls (
      short_code TEXT PRIMARY KEY,
      original_url TEXT NOT NULL,
      created_at TIMESTAMP DEFAULT CURRENT_TIMESTAMP,
      click_count INTEGER DEFAULT 0
  )
  \<close>
  A row of the table is a record and the table is the list of its rows in insertion
  order. Every method of \<open>URLShortenerDB\<close> runs under \<open>self.lock\<close> in one transaction,
  so a method is one step on the table. The clock of \<open>CURRENT_TIMESTAMP\<close> is an
  argument. A failure of the storage engine itself (the \<open>except Exception\<close>
  branches) is outside the model.
\<close>

type_synonym timestamp = nat

text \<open>
  The value of the column \<open>click_count\<close>. An SQLite \<open>INTEGER\<close> is a signed 64-bit
  integer. The column starts at \<open>DEFAULT 0\<close> and nothing but \<open>click_count + 1\<close>
  changes it. At \<open>9223372036854775807\<close> the sum does not fit 64 bits: SQLite then adds
  in floating point and stores the \<open>REAL\<close> \<open>9223372036854775808.0\<close>, which is
  \<open>2 ^ 63\<close>. One more added to this \<open>REAL\<close> rounds back to it (neighbouring doubles
  are 2048 apart there), so it is the only \<open>REAL\<close> the column ever holds.
\<close>

datatype sql_number = SqlInteger "64 word" | SqlReal2p63

definition max_int64 :: "64 word" where
  "max_int64 = 0x7FFFFFFFFFFFFFFF"

text \<open>\<open>click_count + 1\<close> as SQLite evaluates it.\<close>

definition sql_add_one :: "sql_number \<Rightarrow> sql_number" where
  "sql_add_one v =
     (case v of
        SqlInteger w \<Rightarrow> if w = max_int64 then SqlReal2p63 else SqlInteger (w + 1)
      | SqlReal2p63 \<Rightarrow> SqlReal2p63)"

text \<open>The number that a value of the column denotes (what Python compares with
  \<open>==\<close>).\<close>

definition number_value :: "sql_number \<Rightarrow> int" where
  "number_value v =
     (case v of SqlInteger w \<Rightarrow> sint w | SqlReal2p63 \<Rightarrow> 9223372036854775808)"

record url_row =
  short_code :: string
  original_url :: string
  created_at :: timestamp
  click_count :: sql_number

type_synonym db = "url_row list"

text \<open>\<open>_init_db\<close> on a fresh database file.\<close>

definition init_db :: db where
  "init_db = []"

definition has_code :: "string \<Rightarrow> db \<Rightarrow> bool" where
  "has_code code d = list_ex (\<lambda>r. short_code r = code) d"

text \<open>
  \<^verbatim>\<open>
  def create_url_mapping(self, short_code, original_url):
      try:
          with self.lock:
              cursor.execute(
                  'INSERT INTO urls (short_code, original_url) VALUES (?, ?)',
                  (short_code, original_url))
              conn.commit()
              return True
      except sqlite3.IntegrityError:
          return False
  \<close>
  The \<open>INSERT\<close> raises \<open>IntegrityError\<close> when a row with the primary key exists.
\<close>

definition create_url_mapping :: "timestamp \<Rightarrow> string \<Rightarrow> string \<Rightarrow> db \<Rightarrow> bool \<times> db" where
  "create_url_mapping now code url d =
     (if has_code code d then (False, d)
      else (True, d @ [\<lparr>short_code = code, original_url = url, created_at = now,
                       click_count = SqlInteger 0\<rparr>]))"

text \<open>
  \<^verbatim>\<open>
  def get_url_mapping(self, short_code):
      cursor.execute('SELECT short_code, original_url, created_at, click_count
                      FROM urls WHERE short_code = ?', (short_code,))
      result = cursor.fetchone()
      if result:
          return {...}
      return None
  \<close>
\<close>

definition get_url_mapping :: "string \<Rightarrow> db \<Rightarrow> url_row option" where
  "get_url_mapping code d = find (\<lambda>r. short_code r = code) d"

text \<open>
  \<^verbatim>\<open>
  def increment_click_count(self, short_code):
      cursor.execute(
          'UPDATE urls SET click_count = click_count + 1 WHERE short_code = ?',
          (short_code,))
      conn.commit()
      return cursor.rowcount > 0
  \<close>
\<close>

definition increment_click_count :: "string \<Rightarrow> db \<Rightarrow> bool \<times> db" where
  "increment_click_count code d =
     (has_code code d,
      map (\<lambda>r. if short_code r = code then r\<lparr>click_count := sql_add_one (click_count r)\<rparr>
               else r) d)"

definition get_all_urls :: "db \<Rightarrow> url_row list" where
  "get_all_urls d = d"

text \<open>
  \<^verbatim>\<open>
  def delete_url(self, short_code):
      cursor.execute('DELETE FROM urls WHERE short_code = ?', (short_code,))
      conn.commit()
      return cursor.rowcount > 0
  \<close>
\<close>

definition delete_url :: "string \<Rightarrow> db \<Rightarrow> bool \<times> db" where
  "delete_url code d = (has_code code d, filter (\<lambda>r. short_code r \<noteq> code) d)"

text \<open>The operations of the store, and a sequence of them run from a state.\<close>

datatype store_op =
    Create timestamp string string
  | Get string
  | RecordVisit string
  | Delete string

fun apply_op :: "store_op \<Rightarrow> db \<Rightarrow> db" where
  "apply_op (Create now code url) d = snd (create_url_mapping now code url d)"
| "apply_op (Get code) d = d"
| "apply_op (RecordVisit code) d = snd (increment_click_count code d)"
| "apply_op (Delete code) d = snd (delete_url code d)"

fun run :: "store_op list \<Rightarrow> db \<Rightarrow> db" where
  "run [] d = d"
| "run (op # ops) d = run ops (apply_op op d)"

text \<open>\<open>n\<close> sequential calls of \<open>increment_click_count\<close>: the results and the final
  table.\<close>

fun visits :: "nat \<Rightarrow> string \<Rightarrow> db \<Rightarrow> bool list \<times> db" where
  "visits 0 code d = ([], d)"
| "visits (Suc n) code d =
     (let (ok, d1) = increment_click_count code d;
          (oks, d2) = visits n code d1
      in (ok # oks, d2))"

section \<open>utils.py: short codes\<close>

text \<open>
  \<^verbatim>\<open>
  def generate_short_code(length=6):
      characters = string.ascii_letters + string.digits
      return ''.join(random.choice(characters) for _ in range(length))
  \<close>
  The random source is a stream \<open>rng\<close> of numbers read at a position;
  \<open>random.choice(seq)\<close> is \<open>seq[i]\<close> for a drawn index \<open>i\<close> below \<open>len(seq)\<close>.
\<close>

definition characters :: string where
  "characters = ''abcdefghijklmnopqrstuvwxyzABCDEFGHIJKLMNOPQRSTUVWXYZ0123456789''"

definition random_choice :: "nat \<Rightarrow> string \<Rightarrow> char" where
  "random_choice x seq = seq ! (x mod length seq)"

definition generate_short_code :: "nat \<Rightarrow> (nat \<Rightarrow> nat) \<Rightarrow> nat \<Rightarrow> string \<times> nat" where
  "generate_short_code len rng pos =
     (map (\<lambda>i. random_choice (rng (pos + i)) characters) [0..<len], pos + len)"

text \<open>
  \<^verbatim>\<open>
  def generate_unique_short_code(db_instance, length=6, max_attempts=10):
      for _ in range(max_attempts):
          short_code = generate_short_code(length)
          existing_mapping = db_instance.get_url_mapping(short_code)
          if not existing_mapping:
              return short_code
      return None
  \<close>
\<close>

fun generate_unique_short_code ::
  "db \<Rightarrow> nat \<Rightarrow> nat \<Rightarrow> (nat \<Rightarrow> nat) \<Rightarrow> nat \<Rightarrow> string option \<times> nat" where
  "generate_unique_short_code d len 0 rng pos = (None, pos)"
| "generate_unique_short_code d len (Suc attempts) rng pos =
     (let (code, pos1) = generate_short_code len rng pos in
      if get_url_mapping code d = None then (Some code, pos1)
      else generate_unique_short_code d len attempts rng pos1)"

section \<open>main.py: the request handlers\<close>

datatype jval = JStr string | JInt int | JReal2p63 | JTime timestamp | JOther

text \<open>The JSON number of a value of the column \<open>click_count\<close>.\<close>

definition json_number :: "sql_number \<Rightarrow> jval" where
  "json_number v = (case v of SqlInteger w \<Rightarrow> JInt (sint w) | SqlReal2p63 \<Rightarrow> JReal2p63)"

datatype response =
    JsonResponse nat "(string \<times> jval) list"
  | RedirectResponse nat string

text \<open>
  \<^verbatim>\<open>
  def shorten_url():
      try:
          data = request.get_json()
          if not data or 'url' not in data:
              return jsonify({"error": "Missing 'url' field in request body"}), 400
          original_url = data['url']
          if not is_valid_url(original_url):
              return jsonify({"error": "Invalid URL format"}), 400
          sanitized_url = sanitize_url(original_url)
          short_code = generate_unique_short_code(db)
          if not short_code:
              return jsonify({"error": "Unable to generate unique short code"}), 500
          success = db.create_url_mapping(short_code, sanitized_url)
          if not success:
              return jsonify({"error": "Failed to create URL mapping"}), 500
          return jsonify({"short_code": short_code, "original_url": sanitized_url,
                          "short_url": f"http://localhost:5000/{short_code}"}), 201
  \<close>
  The body of the request is the parsed JSON object (\<open>None\<close> when there is none); a
  value that is not a string fails the \<open>isinstance\<close> test of \<open>is_valid_url\<close>.
\<close>

definition error_body :: "string \<Rightarrow> (string \<times> jval) list" where
  "error_body msg = [(''error'', JStr msg)]"

definition missing_url :: string where
  "missing_url = ''Missing '' @ [CHR 0x27] @ ''url'' @ [CHR 0x27] @ '' field in request body''"

definition shorten_url ::
  "(nat \<Rightarrow> nat) \<Rightarrow> nat \<Rightarrow> timestamp \<Rightarrow> (string \<times> jval) list option \<Rightarrow> db
     \<Rightarrow> response \<times> nat \<times> db" where
  "shorten_url rng pos now data d =
     (case data of
        None \<Rightarrow> (JsonResponse 400 (error_body missing_url), pos, d)
      | Some obj \<Rightarrow>
        (case map_of obj ''url'' of
           None \<Rightarrow>
             (JsonResponse 400 (error_body missing_url), pos, d)
         | Some v \<Rightarrow>
           (case v of
              JStr url \<Rightarrow>
                if \<not> is_valid_url url
                then (JsonResponse 400 (error_body ''Invalid URL format''), pos, d)
                else
                  let sanitized_url = sanitize_url url;
                      (generated, pos1) = generate_unique_short_code d 6 10 rng pos
                  in (case generated of
                        None \<Rightarrow>
                          (JsonResponse 500
                             (error_body ''Unable to generate unique short code''), pos1, d)
                      | Some code \<Rightarrow>
                          let (success, d1) = create_url_mapping now code sanitized_url d
                          in if \<not> success
                             then (JsonResponse 500
                                     (error_body ''Failed to create URL mapping''), pos1, d1)
                             else (JsonResponse 201
                                     [(''short_code'', JStr code),
                                      (''original_url'', JStr sanitized_url),
                                      (''short_url'', JStr (''http://localhost:5000/'' @ code))],
                                   pos1, d1))
            | _ \<Rightarrow> (JsonResponse 400 (error_body ''Invalid URL format''), pos, d))))"

text \<open>
  \<^verbatim>\<open>
  def redirect_to_original(short_code):
      try:
          if not validate_short_code(short_code):
              abort(404, description="Invalid short code format")
          mapping = db.get_url_mapping(short_code)
          if not mapping:
              abort(404, description="Short code not found")
          db.increment_click_count(short_code)
          return redirect(mapping['original_url'], code=302)
      except Exception as e:
          abort(500, description="Internal server error")
  \<close>
  \<open>abort\<close> raises an \<open>HTTPException\<close>, which is an \<open>Exception\<close>: the handler of the
  \<open>try\<close> catches the two aborts with 404 and aborts with 500, which the error handler
  of 500 turns into its JSON answer.
\<close>

definition internal_error :: response where
  "internal_error =
     JsonResponse 500 [(''error'', JStr ''Internal server error''),
                       (''message'', JStr ''An unexpected error occurred'')]"

definition redirect_to_original :: "string \<Rightarrow> db \<Rightarrow> response \<times> db" where
  "redirect_to_original code d =
     (if \<not> validate_short_code code then (internal_error, d)
      else case get_url_mapping code d of
             None \<Rightarrow> (internal_error, d)
           | Some mapping \<Rightarrow>
               (RedirectResponse 302 (original_url mapping),
                snd (increment_click_count code d)))"

text \<open>
  \<^verbatim>\<open>
  def get_url_stats(short_code):
      if not validate_short_code(short_code):
          return jsonify({"error": "Invalid short code format"}), 400
      mapping = db.get_url_mapping(short_code)
      if not mapping:
          return jsonify({"error": "Short code not found"}), 404
      return jsonify({"short_code": mapping['short_code'],
                      "original_url": mapping['original_url'],
                      "click_count": mapping['click_count'],
                      "created_at": mapping['created_at']})
  \<close>
\<close>

definition get_url_stats :: "string \<Rightarrow> db \<Rightarrow> response" where
  "get_url_stats code d =
     (if \<not> validate_short_code code
      then JsonResponse 400 (error_body ''Invalid short code format'')
      else case get_url_mapping code d of
             None \<Rightarrow> JsonResponse 404 (error_body ''Short code not found'')
           | Some mapping \<Rightarrow>
               JsonResponse 200
                 [(''short_code'', JStr (short_code mapping)),
                  (''original_url'', JStr (original_url mapping)),
                  (''click_count'', json_number (click_count mapping)),
                  (''created_at'', JTime (created_at mapping))])"

text \<open>A string that \<open>strip\<close> leaves as it is: empty, or with no white space at either
  end.\<close>

definition clean :: "string \<Rightarrow> bool" where
  "clean u = (u = [] \<or> (\<not> isspace (hd u) \<and> \<not> isspace (last u)))"

section \<open>Facts about the counter\<close>

lemma sint_max: "sint max_int64 = 9223372036854775807"
  by (simp add: max_int64_def)

lemma sint_bound: "sint (w :: 64 word) \<le> 9223372036854775807"
  using sint_lt [of w] by simp

lemma sint_lower: "- 9223372036854775808 \<le> sint (w :: 64 word)"
  using sint_ge [of w] by simp

lemma sint_succ:
  assumes "(w :: 64 word) \<noteq> max_int64"
  shows "sint (w + 1) = sint w + 1"
proof -
  have "sint w \<noteq> sint max_int64"
    using assms by (auto dest: signed_word_eqI)
  then have lt: "sint w + 1 < 9223372036854775808"
    using sint_bound [of w] by (simp add: sint_max)
  have ge: "- 9223372036854775808 \<le> sint w + 1"
    using sint_lower [of w] by simp
  have "sint (w + 1) = signed_take_bit 63 (sint w + 1)"
    by (simp add: sint_word_add)
  also have "\<dots> = sint w + 1"
    using lt ge by (simp add: signed_take_bit_int_eq_self)
  finally show ?thesis .
qed

lemma add_one_value:
  "number_value v < 9223372036854775808 \<Longrightarrow>
     number_value (sql_add_one v) = number_value v + 1"
  by (cases v) (auto simp: number_value_def sql_add_one_def sint_max sint_succ)


lemma value_real: "number_value v = 9223372036854775808 \<Longrightarrow> v = SqlReal2p63"
proof (cases v)
  case (SqlInteger w)
  assume "number_value v = 9223372036854775808"
  with SqlInteger show ?thesis using sint_bound [of w] by (simp add: number_value_def)
next
  case SqlReal2p63
  then show ?thesis by simp
qed

text \<open>The end of the 64-bit range: the visit at \<open>9223372036854775807\<close> stores the
  \<open>REAL\<close>, which denotes one more, and a visit after that leaves the \<open>REAL\<close> as it
  is.\<close>

lemma counter_at_the_end:
  "sql_add_one (SqlInteger max_int64) = SqlReal2p63 \<and>
   number_value (SqlInteger max_int64) + 1 = number_value SqlReal2p63 \<and>
   sql_add_one SqlReal2p63 = SqlReal2p63"
  by (simp add: sql_add_one_def number_value_def sint_max)

lemma add_one_zero: "sql_add_one (SqlInteger 0) = SqlInteger 1"
  by (simp add: sql_add_one_def max_int64_def)

lemma json_number_one: "json_number (SqlInteger 1) = JInt 1"
  by (simp add: json_number_def)

lemma three_visits: "(sql_add_one ^^ 3) (SqlInteger 0) = SqlInteger 3"
  by code_simp

lemma add_one_real: "(sql_add_one ^^ n) SqlReal2p63 = SqlReal2p63"
  by (induction n) (simp_all add: sql_add_one_def)


lemma add_ones_value:
  "number_value v + int n \<le> 9223372036854775808 \<Longrightarrow>
     number_value ((sql_add_one ^^ n) v) = number_value v + int n"
proof (induction n)
  case 0
  then show ?case by simp
next
  case (Suc n)
  then have ih: "number_value ((sql_add_one ^^ n) v) = number_value v + int n" by simp
  with Suc.prems have "number_value ((sql_add_one ^^ n) v) < 9223372036854775808" by simp
  then have "number_value (sql_add_one ((sql_add_one ^^ n) v)) =
               number_value ((sql_add_one ^^ n) v) + 1"
    by (rule add_one_value)
  with ih show ?case by simp
qed

lemma add_ones_saturated:
  assumes n: "9223372036854775808 \<le> n"
  shows "(sql_add_one ^^ n) (SqlInteger 0) = SqlReal2p63"
proof -
  let ?m = "9223372036854775808 :: nat"
  have "number_value ((sql_add_one ^^ ?m) (SqlInteger 0)) =
          number_value (SqlInteger 0) + int ?m"
    by (rule add_ones_value) (simp add: number_value_def)
  then have "number_value ((sql_add_one ^^ ?m) (SqlInteger 0)) = 9223372036854775808"
    by (simp add: number_value_def)
  then have r: "(sql_add_one ^^ ?m) (SqlInteger 0) = SqlReal2p63" by (rule value_real)
  from n obtain k where k: "n = k + ?m" by (metis le_add_diff_inverse2)
  have "(sql_add_one ^^ (k + ?m)) (SqlInteger 0) =
          (sql_add_one ^^ k) ((sql_add_one ^^ ?m) (SqlInteger 0))"
    by (simp only: funpow_add o_apply)
  with r k show ?thesis by (simp only: add_one_real)
qed

section \<open>Facts about the table\<close>

lemma has_code_iff: "has_code c d \<longleftrightarrow> c \<in> set (map short_code d)"
  by (auto simp: has_code_def list_ex_iff)

lemma get_None_iff: "get_url_mapping c d = None \<longleftrightarrow> \<not> has_code c d"
  by (auto simp: get_url_mapping_def has_code_def find_None_iff list_ex_iff)

lemma codes_create:
  "map short_code (snd (create_url_mapping now c u d)) =
     (if has_code c d then map short_code d else map short_code d @ [c])"
  by (simp add: create_url_mapping_def)

lemma codes_increment:
  "map short_code (snd (increment_click_count c d)) = map short_code d"
  by (induction d) (simp_all add: increment_click_count_def)

lemma codes_delete:
  "map short_code (snd (delete_url c d)) = filter (\<lambda>k. k \<noteq> c) (map short_code d)"
  by (induction d) (simp_all add: delete_url_def)

lemma apply_op_distinct:
  "distinct (map short_code d) \<Longrightarrow> distinct (map short_code (apply_op op d))"
  by (cases op) (auto simp: codes_create codes_increment codes_delete has_code_iff)

lemma run_distinct:
  "distinct (map short_code d) \<Longrightarrow> distinct (map short_code (run ops d))"
  by (induction ops arbitrary: d) (simp_all add: apply_op_distinct)

lemma get_after_create:
  "\<not> has_code c d \<Longrightarrow>
     get_url_mapping c
       (d @ [\<lparr>short_code = c, original_url = u, created_at = now, click_count = SqlInteger 0\<rparr>])
       = Some \<lparr>short_code = c, original_url = u, created_at = now, click_count = SqlInteger 0\<rparr>"
  by (induction d) (auto simp: get_url_mapping_def has_code_def)

lemma visits_present:
  "get_url_mapping c d = Some r \<Longrightarrow>
     fst (visits n c d) = replicate n True \<and>
     get_url_mapping c (snd (visits n c d)) =
       Some (r\<lparr>click_count := (sql_add_one ^^ n) (click_count r)\<rparr>)"
proof (induction n arbitrary: d r)
  case 0
  then show ?case by simp
next
  case (Suc n)
  have h: "has_code c d" using Suc.prems get_None_iff[of c d] by auto
  have g: "get_url_mapping c (snd (increment_click_count c d)) =
             Some (r\<lparr>click_count := sql_add_one (click_count r)\<rparr>)"
    using Suc.prems by (induction d) (auto simp: get_url_mapping_def increment_click_count_def)
  from Suc.IH[OF g] h show ?case
    by (simp add: split_beta increment_click_count_def funpow_swap1)
qed




section \<open>Facts about \<open>strip\<close>\<close>

lemma rstrip_prefix: "\<exists>t. s = rstrip s @ t"
proof -
  have "rev (dropWhile isspace (rev s)) @ rev (takeWhile isspace (rev s)) =
          rev (takeWhile isspace (rev s) @ dropWhile isspace (rev s))"
    by (rule rev_append [symmetric])
  also have "\<dots> = s" by simp
  finally have "s = rev (dropWhile isspace (rev s)) @ rev (takeWhile isspace (rev s))"
    by (rule sym)
  then show ?thesis unfolding rstrip_def by (rule exI)
qed

lemma clean_strip: "clean (strip s)"
proof (cases "strip s = []")
  case True
  then show ?thesis by (simp add: clean_def)
next
  case False
  let ?t = "lstrip s"
  from False have ne: "rstrip ?t \<noteq> []" by (simp add: strip_def)
  obtain w where w: "?t = rstrip ?t @ w" using rstrip_prefix by blast
  from ne w have tne: "?t \<noteq> []" by auto
  then have "\<not> isspace (hd ?t)" unfolding lstrip_def by (rule hd_dropWhile)
  moreover from w ne have "hd (rstrip ?t) = hd ?t" by (metis hd_append2)
  moreover from ne have "dropWhile isspace (rev ?t) \<noteq> []" by (simp add: rstrip_def)
  then have "\<not> isspace (hd (dropWhile isspace (rev ?t)))" by (rule hd_dropWhile)
  then have "\<not> isspace (last (rstrip ?t))" using ne by (simp add: rstrip_def last_rev)
  ultimately show ?thesis by (simp add: clean_def strip_def)
qed

lemma strip_clean: "clean u \<Longrightarrow> strip u = u"
proof (cases "u = []")
  case True
  then show ?thesis by (simp add: strip_def lstrip_def rstrip_def)
next
  case False
  assume c: "clean u"
  from c False have 1: "lstrip u = u" by (cases u) (simp_all add: clean_def lstrip_def)
  from c False have "\<not> isspace (last u)" by (simp add: clean_def)
  then have "\<not> isspace (hd (rev u))" using False by (simp add: hd_rev)
  moreover from False have "rev u \<noteq> []" by simp
  ultimately have "dropWhile isspace (rev u) = rev u" by (cases "rev u") auto
  with 1 show ?thesis by (simp add: strip_def rstrip_def)
qed

lemma h_not_space: "\<not> isspace CHR ''h''"
  by code_simp

lemma clean_prepend: "u \<noteq> [] \<Longrightarrow> clean u \<Longrightarrow> clean (''http://'' @ u)"
  using h_not_space by (simp add: clean_def)

lemma startswith_prepend: "startswith (''http://'' @ u) ''http://''"
  by (simp add: startswith_def)

lemma github_invalid: "\<not> is_valid_url ''github.com''"
  by code_simp

lemma github_sanitized_valid: "is_valid_url (sanitize_url ''github.com'')"
  by code_simp

section \<open>Facts about the generation of codes\<close>

lemma gen_unique_pos:
  "snd (generate_unique_short_code d len n rng pos) \<le> pos + n * len"
proof (induction n arbitrary: pos)
  case 0
  then show ?case by simp
next
  case (Suc n)
  have "snd (generate_unique_short_code d len n rng (pos + len)) \<le> pos + len + n * len"
    by (rule Suc.IH)
  then show ?case by (simp add: generate_short_code_def Let_def)
qed

lemma gen_unique_exhausted:
  "list_all (\<lambda>k. has_code (fst (generate_short_code len rng (pos + len * k))) d) [0..<n] \<Longrightarrow>
     generate_unique_short_code d len n rng pos = (None, pos + n * len)"
proof (induction n arbitrary: pos)
  case 0
  then show ?case by simp
next
  case (Suc n)
  from Suc.prems have all: "\<forall>k<Suc n. has_code (fst (generate_short_code len rng (pos + len * k))) d"
    by (auto simp: list_all_iff less_Suc_eq)
  then have first: "has_code (fst (generate_short_code len rng pos)) d" by force
  have "\<forall>k<n. has_code (fst (generate_short_code len rng (pos + len + len * k))) d"
  proof (intro allI impI)
    fix k assume "k < n"
    then have "has_code (fst (generate_short_code len rng (pos + len * Suc k))) d" using all by blast
    then show "has_code (fst (generate_short_code len rng (pos + len + len * k))) d"
      by (simp add: add.assoc)
  qed
  then have "list_all (\<lambda>k. has_code (fst (generate_short_code len rng (pos + len + len * k))) d) [0..<n]"
    by (simp add: list_all_iff)
  from Suc.IH[OF this] first show ?case
    by (simp add: generate_short_code_def Let_def get_None_iff)
qed

lemma gen_unique_fresh:
  "generate_unique_short_code d len n rng pos = (Some c, p) \<Longrightarrow> \<not> has_code c d"
proof (induction n arbitrary: pos)
  case 0
  then show ?case by simp
next
  case (Suc n)
  then show ?case
    by (auto simp: Let_def split_beta get_None_iff split: if_splits)
qed

lemma shorten_url_pos:
  "fst (snd (shorten_url rng pos now data d)) \<le> pos + 10 * 6"
proof -
  have g: "snd (generate_unique_short_code d 6 10 rng pos) \<le> pos + 10 * 6"
    by (rule gen_unique_pos)
  show ?thesis using g
    by (auto simp: shorten_url_def Let_def split_beta split: option.splits jval.splits)
qed

section \<open>Evaluations\<close>

lemma v1: "\<not> is_valid_url ''not-a-url''"
  by code_simp

lemma v2: "\<not> is_valid_url ''ftp://example.com''"
  by code_simp

lemma v3: "\<not> is_valid_url ''https://''"
  by code_simp

lemma v4: "\<not> is_valid_url ''http://.com''"
  by code_simp

lemma v5: "is_valid_url ''https://www.example.com''"
  by code_simp

lemma v6: "is_valid_url ''http://192.168.1.1:8080''"
  by code_simp


lemma example_valid: "is_valid_url ''https://example.com''"
  by code_simp

lemma all_a: "fst (generate_short_code 6 (\<lambda>i. 0) p) = ''aaaaaa''"
  by (simp add: generate_short_code_def random_choice_def characters_def upt_conv_Cons)

lemma first_code: "generate_unique_short_code init_db 6 10 (\<lambda>i. i) 0 = (Some ''abcdef'', 6)"
  by code_simp

lemma example_prefix: "startswith ''https://example.com'' ''https://''"
  by (simp add: startswith_def)

lemma example_strip: "strip ''https://example.com'' = ''https://example.com''"
  by code_simp

section \<open>The scenario of a URL that carries its scheme\<close>

text \<open>Creation, one redirect and the statistics for \<open>http://github.com\<close> on the
  empty table, whatever the random source draws.\<close>

lemma characters_alnum: "list_all ascii_alnum characters"
  by code_simp

lemma characters_length: "length characters = 62"
  by code_simp

lemma random_choice_alnum: "ascii_alnum (random_choice x characters)"
proof -
  have "x mod length characters < length characters" by (simp add: characters_length)
  then have "characters ! (x mod length characters) \<in> set characters" by (rule nth_mem)
  then show ?thesis using characters_alnum by (simp add: random_choice_def list_all_iff)
qed

lemma generated_code_alnum:
  "length (fst (generate_short_code 6 rng pos)) = 6 \<and>
   list_all ascii_alnum (fst (generate_short_code 6 rng pos))"
  by (simp add: generate_short_code_def list_all_iff random_choice_alnum)

lemma generated_code_well_formed: "validate_short_code (fst (generate_short_code 6 rng pos))"
proof -
  let ?c = "fst (generate_short_code 6 rng pos)"
  have l: "length ?c = 6" and a: "list_all ascii_alnum ?c"
    using generated_code_alnum by auto
  from a have "list_all isalnum_char ?c" by (simp add: list_all_iff isalnum_char_def)
  moreover from l have "?c \<noteq> []" by auto
  ultimately show ?thesis using l by (simp add: validate_short_code_def isalnum_def)
qed

lemma gen_unique_first:
  "get_url_mapping (fst (generate_short_code len rng pos)) d = None \<Longrightarrow>
     generate_unique_short_code d len (Suc n) rng pos =
       (Some (fst (generate_short_code len rng pos)), pos + len)"
  by (simp add: generate_short_code_def Let_def)

lemma github_with_scheme_valid: "is_valid_url ''http://github.com''"
  by code_simp

lemma github_with_scheme_sanitized: "sanitize_url ''http://github.com'' = ''http://github.com''"
  by code_simp

lemma scenario_with_scheme:
  assumes c: "code = fst (generate_short_code 6 rng pos)"
    and r: "row = \<lparr>short_code = code, original_url = ''http://github.com'', created_at = now,
                  click_count = SqlInteger 0\<rparr>"
  shows "shorten_url rng pos now (Some [(''url'', JStr ''http://github.com'')]) init_db =
           (JsonResponse 201 [(''short_code'', JStr code),
                              (''original_url'', JStr ''http://github.com''),
                              (''short_url'', JStr (''http://localhost:5000/'' @ code))],
            pos + 6, [row])"
    and "length code = 6 \<and> list_all ascii_alnum code"
    and "redirect_to_original code [row] =
           (RedirectResponse 302 ''http://github.com'', [row\<lparr>click_count := SqlInteger 1\<rparr>])"
    and "get_url_stats code [row\<lparr>click_count := SqlInteger 1\<rparr>] =
           JsonResponse 200 [(''short_code'', JStr code),
                             (''original_url'', JStr ''http://github.com''),
                             (''click_count'', JInt 1),
                             (''created_at'', JTime now)]"
proof -
  have g: "generate_unique_short_code init_db 6 10 rng pos = (Some code, pos + 6)"
  proof -
    have "get_url_mapping (fst (generate_short_code 6 rng pos)) init_db = None"
      by (simp add: get_url_mapping_def init_db_def)
    then have "generate_unique_short_code init_db 6 (Suc 9) rng pos =
                 (Some (fst (generate_short_code 6 rng pos)), pos + 6)"
      by (rule gen_unique_first)
    then show ?thesis using c by simp
  qed
  show "shorten_url rng pos now (Some [(''url'', JStr ''http://github.com'')]) init_db =
           (JsonResponse 201 [(''short_code'', JStr code),
                              (''original_url'', JStr ''http://github.com''),
                              (''short_url'', JStr (''http://localhost:5000/'' @ code))],
            pos + 6, [row])"
    using g r github_with_scheme_valid github_with_scheme_sanitized
    by (simp add: shorten_url_def create_url_mapping_def has_code_def init_db_def Let_def)
  show "length code = 6 \<and> list_all ascii_alnum code"
    using c generated_code_alnum by simp
  have v: "validate_short_code code" using c generated_code_well_formed by simp
  show "redirect_to_original code [row] =
           (RedirectResponse 302 ''http://github.com'', [row\<lparr>click_count := SqlInteger 1\<rparr>])"
    using v r by (simp add: redirect_to_original_def get_url_mapping_def increment_click_count_def
        add_one_zero)
  show "get_url_stats code [row\<lparr>click_count := SqlInteger 1\<rparr>] =
           JsonResponse 200 [(''short_code'', JStr code),
                             (''original_url'', JStr ''http://github.com''),
                             (''click_count'', JInt 1),
                             (''created_at'', JTime now)]"
    using v r by (simp add: get_url_stats_def get_url_mapping_def json_number_one)
qed

section \<open>The claims\<close>

text \<open>
  C1, at the input of the claim. \<open>shorten_url\<close> validates the submitted string before it
  sanitizes it: for the body \<open>{"url": "github.com"}\<close> it answers 400 "Invalid URL
  format", draws no code and leaves the table as it is, whatever the random source, the
  clock and the table are.
\<close>

theorem shorten_url_scheme_less:
  "shorten_url rng pos now (Some [(''url'', JStr ''github.com'')]) d =
     (JsonResponse 400 [(''error'', JStr ''Invalid URL format'')], pos, d)"
  using github_invalid by (simp add: shorten_url_def error_body_def)

text \<open>
  C2. In every state reached from the empty table by creates, gets, visits and deletes
  the short codes of the rows are pairwise distinct, and a create with a code that the
  table has returns \<open>False\<close> and leaves the table as it is.
\<close>

theorem unique_codes:
  "distinct (map short_code (run ops init_db)) \<and>
   (has_code c (run ops init_db) \<longrightarrow>
      create_url_mapping now c u (run ops init_db) = (False, run ops init_db))"
  by (simp add: run_distinct init_db_def create_url_mapping_def)

theorem unique_codes_witness:
  "distinct (map short_code (run [Create 1 ''abc123'' ''http://a.com'', RecordVisit ''abc123'',
       Create 2 ''abc123'' ''http://b.com'', Create 3 ''xyz789'' ''http://c.com''] init_db)) \<and>
   has_code ''abc123'' (run [Create 1 ''abc123'' ''http://a.com'', RecordVisit ''abc123'',
       Create 2 ''abc123'' ''http://b.com'', Create 3 ''xyz789'' ''http://c.com''] init_db) \<and>
   create_url_mapping 4 ''abc123'' ''http://d.com''
     (run [Create 1 ''abc123'' ''http://a.com'', RecordVisit ''abc123'',
       Create 2 ''abc123'' ''http://b.com'', Create 3 ''xyz789'' ''http://c.com''] init_db)
   = (False,
      [\<lparr>short_code = ''abc123'', original_url = ''http://a.com'', created_at = 1,
          click_count = SqlInteger 1\<rparr>,
       \<lparr>short_code = ''xyz789'', original_url = ''http://c.com'', created_at = 3,
          click_count = SqlInteger 0\<rparr>])"
  using unique_codes [of "[Create 1 ''abc123'' ''http://a.com'', RecordVisit ''abc123'',
       Create 2 ''abc123'' ''http://b.com'', Create 3 ''xyz789'' ''http://c.com'']"
       "''abc123''" 4 "''http://d.com''"]
  by (simp add: init_db_def create_url_mapping_def has_code_def increment_click_count_def
      add_one_zero)

text \<open>
  C3, as amended. After a create that succeeds, \<open>n\<close> sequential visits of the code all
  succeed, and for \<open>n\<close> up to \<open>2 ^ 63\<close> a get of the code then reports the click
  count \<open>n\<close> (with the URL and the time of the create).
\<close>

theorem visits_counted:
  assumes "create_url_mapping now c u d = (True, d1)"
    and "n \<le> 9223372036854775808"
  shows "fst (visits n c d1) = replicate n True \<and>
         get_url_mapping c (snd (visits n c d1)) =
           Some \<lparr>short_code = c, original_url = u, created_at = now,
                  click_count = (sql_add_one ^^ n) (SqlInteger 0)\<rparr> \<and>
         number_value ((sql_add_one ^^ n) (SqlInteger 0)) = int n"
proof -
  from assms(1) have nc: "\<not> has_code c d"
    and d1: "d1 = d @ [\<lparr>short_code = c, original_url = u, created_at = now,
                         click_count = SqlInteger 0\<rparr>]"
    by (auto simp: create_url_mapping_def split: if_splits)
  have "number_value (SqlInteger 0) + int n \<le> 9223372036854775808"
    using assms(2) by (simp add: number_value_def)
  then have "number_value ((sql_add_one ^^ n) (SqlInteger 0)) = number_value (SqlInteger 0) + int n"
    by (rule add_ones_value)
  then have v: "number_value ((sql_add_one ^^ n) (SqlInteger 0)) = int n"
    by (simp add: number_value_def)
  from visits_present[OF get_after_create[OF nc, of u now], of n] d1 v
  show ?thesis by simp
qed

theorem visits_counted_witness:
  "create_url_mapping 5 ''abc123'' ''https://example.com'' init_db =
     (True, [\<lparr>short_code = ''abc123'', original_url = ''https://example.com'',
               created_at = 5, click_count = SqlInteger 0\<rparr>]) \<and>
   (3::nat) \<le> 9223372036854775808 \<and>
   fst (visits 3 ''abc123'' [\<lparr>short_code = ''abc123'', original_url = ''https://example.com'',
               created_at = 5, click_count = SqlInteger 0\<rparr>]) = [True, True, True] \<and>
   get_url_mapping ''abc123''
     (snd (visits 3 ''abc123'' [\<lparr>short_code = ''abc123'', original_url = ''https://example.com'',
               created_at = 5, click_count = SqlInteger 0\<rparr>])) =
     Some \<lparr>short_code = ''abc123'', original_url = ''https://example.com'', created_at = 5,
            click_count = SqlInteger 3\<rparr> \<and>
   number_value (SqlInteger 3) = 3"
proof -
  have h: "create_url_mapping 5 ''abc123'' ''https://example.com'' init_db =
     (True, [\<lparr>short_code = ''abc123'', original_url = ''https://example.com'',
               created_at = 5, click_count = SqlInteger 0\<rparr>])"
    by (simp add: create_url_mapping_def init_db_def has_code_def)
  have b: "(3::nat) \<le> 9223372036854775808" by simp
  have e: "(sql_add_one ^^ 3) (SqlInteger 0) = SqlInteger 3" by (rule three_visits)
  show ?thesis using h b visits_counted[OF h b] unfolding e
    by (simp add: numeral_3_eq_3)
qed

text \<open>
  C3 as it is written fails at \<open>N = 2 ^ 63 + 1\<close>: the visits all succeed, and the
  get reports the \<open>REAL\<close> \<open>9223372036854775808.0\<close>, which is not \<open>N\<close>.
\<close>

theorem visits_counted_counterexample:
  "create_url_mapping 5 ''abc123'' ''https://example.com'' init_db =
     (True, [\<lparr>short_code = ''abc123'', original_url = ''https://example.com'',
               created_at = 5, click_count = SqlInteger 0\<rparr>]) \<and>
   fst (visits 9223372036854775809 ''abc123''
         [\<lparr>short_code = ''abc123'', original_url = ''https://example.com'',
            created_at = 5, click_count = SqlInteger 0\<rparr>]) =
     replicate 9223372036854775809 True \<and>
   get_url_mapping ''abc123''
     (snd (visits 9223372036854775809 ''abc123''
         [\<lparr>short_code = ''abc123'', original_url = ''https://example.com'',
            created_at = 5, click_count = SqlInteger 0\<rparr>])) =
     Some \<lparr>short_code = ''abc123'', original_url = ''https://example.com'', created_at = 5,
            click_count = SqlReal2p63\<rparr> \<and>
   number_value SqlReal2p63 \<noteq> 9223372036854775809"
proof -
  let ?row = "\<lparr>short_code = ''abc123'', original_url = ''https://example.com'',
               created_at = 5, click_count = SqlInteger 0\<rparr>"
  let ?n = "9223372036854775809 :: nat"
  have h: "create_url_mapping 5 ''abc123'' ''https://example.com'' init_db = (True, [?row])"
    by (simp add: create_url_mapping_def init_db_def has_code_def)
  have g: "get_url_mapping ''abc123'' [?row] = Some ?row"
    by (simp add: get_url_mapping_def)
  have s: "(sql_add_one ^^ ?n) (SqlInteger 0) = SqlReal2p63"
    by (rule add_ones_saturated) simp
  have v: "fst (visits ?n ''abc123'' [?row]) = replicate ?n True \<and>
           get_url_mapping ''abc123'' (snd (visits ?n ''abc123'' [?row])) =
             Some (?row\<lparr>click_count := (sql_add_one ^^ ?n) (click_count ?row)\<rparr>)"
    using g by (rule visits_present)
  have v1: "fst (visits ?n ''abc123'' [?row]) = replicate ?n True"
    using v by (rule conjunct1)
  have "get_url_mapping ''abc123'' (snd (visits ?n ''abc123'' [?row])) =
          Some (?row\<lparr>click_count := (sql_add_one ^^ ?n) (click_count ?row)\<rparr>)"
    using v by (rule conjunct2)
  also have "?row\<lparr>click_count := (sql_add_one ^^ ?n) (click_count ?row)\<rparr> =
          \<lparr>short_code = ''abc123'', original_url = ''https://example.com'', created_at = 5,
            click_count = SqlReal2p63\<rparr>"
    by (simp only: s url_row.simps)
  finally have v2: "get_url_mapping ''abc123'' (snd (visits ?n ''abc123'' [?row])) =
     Some \<lparr>short_code = ''abc123'', original_url = ''https://example.com'', created_at = 5,
            click_count = SqlReal2p63\<rparr>" .
  have ne: "number_value SqlReal2p63 \<noteq> 9223372036854775809"
    by (simp add: number_value_def)
  from h v1 v2 ne show ?thesis by (intro conjI)
qed

text \<open>
  C4. For a URL that starts with \<open>http://\<close> or \<open>https://\<close> and has no white space
  at either end: when \<open>shorten_url\<close> answers 201, the answer carries a short code and
  the submitted URL, and the get of that code in the new table returns the mapping with
  the submitted URL as it is and the click count 0.
\<close>

theorem round_trip:
  assumes pre: "startswith u ''http://'' \<or> startswith u ''https://''"
    and ws: "strip u = u"
    and ok: "shorten_url rng pos now (Some [(''url'', JStr u)]) d = (JsonResponse 201 body, pos1, d1)"
  shows "\<exists>code. body = [(''short_code'', JStr code), (''original_url'', JStr u),
                         (''short_url'', JStr (''http://localhost:5000/'' @ code))] \<and>
           get_url_mapping code d1 =
             Some \<lparr>short_code = code, original_url = u, created_at = now, click_count = SqlInteger 0\<rparr>"
proof -
  have san: "sanitize_url u = u"
    using pre ws by (auto simp: sanitize_url_def Let_def)
  from ok have v: "is_valid_url u"
    by (auto simp: shorten_url_def error_body_def split: if_splits)
  obtain g p where g: "generate_unique_short_code d 6 10 rng pos = (g, p)"
    by (cases "generate_unique_short_code d 6 10 rng pos")
  from ok v g obtain code where code: "g = Some code"
    by (cases g) (auto simp: shorten_url_def error_body_def)
  from g code have fresh: "\<not> has_code code d" by (auto dest: gen_unique_fresh)
  from ok v g code fresh san
  have b: "body = [(''short_code'', JStr code), (''original_url'', JStr u),
                  (''short_url'', JStr (''http://localhost:5000/'' @ code))]"
    and d1: "d1 = d @ [\<lparr>short_code = code, original_url = u, created_at = now,
                          click_count = SqlInteger 0\<rparr>]"
    by (auto simp: shorten_url_def create_url_mapping_def)
  from b d1 get_after_create[OF fresh, of u now] show ?thesis by simp
qed

theorem round_trip_witness:
  "(startswith ''https://example.com'' ''http://'' \<or> startswith ''https://example.com'' ''https://'') \<and>
   strip ''https://example.com'' = ''https://example.com'' \<and>
   shorten_url (\<lambda>i. i) 0 7 (Some [(''url'', JStr ''https://example.com'')]) init_db =
     (JsonResponse 201 [(''short_code'', JStr ''abcdef''),
                        (''original_url'', JStr ''https://example.com''),
                        (''short_url'', JStr ''http://localhost:5000/abcdef'')],
      6, [\<lparr>short_code = ''abcdef'', original_url = ''https://example.com'',
             created_at = 7, click_count = SqlInteger 0\<rparr>]) \<and>
   get_url_mapping ''abcdef'' [\<lparr>short_code = ''abcdef'', original_url = ''https://example.com'',
             created_at = 7, click_count = SqlInteger 0\<rparr>] =
     Some \<lparr>short_code = ''abcdef'', original_url = ''https://example.com'',
             created_at = 7, click_count = SqlInteger 0\<rparr>"
proof -
  have p: "startswith ''https://example.com'' ''http://'' \<or> startswith ''https://example.com'' ''https://''"
    using example_prefix by simp
  have san: "sanitize_url ''https://example.com'' = ''https://example.com''"
    using example_prefix example_strip by (simp add: sanitize_url_def)
  have s: "shorten_url (\<lambda>i. i) 0 7 (Some [(''url'', JStr ''https://example.com'')]) init_db =
     (JsonResponse 201 [(''short_code'', JStr ''abcdef''),
                        (''original_url'', JStr ''https://example.com''),
                        (''short_url'', JStr ''http://localhost:5000/abcdef'')],
      6, [\<lparr>short_code = ''abcdef'', original_url = ''https://example.com'',
             created_at = 7, click_count = SqlInteger 0\<rparr>])"
    using example_valid san first_code
    by (simp add: shorten_url_def create_url_mapping_def has_code_def init_db_def Let_def)
  show ?thesis using p example_strip s round_trip [OF p example_strip s] by simp
qed

text \<open>
  C5. \<open>shorten_url\<close> is a total function that reads at most \<open>10 * 6\<close> numbers of the
  random source, the characters of at most 10 candidate codes. When the 10 candidates
  all are codes of the table, it answers 500 "Unable to generate unique short code" and
  the table is as it was.
\<close>

theorem create_bounded:
  "fst (snd (shorten_url rng pos now data d)) \<le> pos + 10 * 6 \<and>
   (is_valid_url u \<longrightarrow>
    list_all (\<lambda>k. has_code (fst (generate_short_code 6 rng (pos + 6 * k))) d) [0..<10] \<longrightarrow>
      shorten_url rng pos now (Some [(''url'', JStr u)]) d =
        (JsonResponse 500 [(''error'', JStr ''Unable to generate unique short code'')],
         pos + 10 * 6, d))"
proof (intro conjI impI)
  show "fst (snd (shorten_url rng pos now data d)) \<le> pos + 10 * 6"
    by (rule shorten_url_pos)
next
  assume v: "is_valid_url u"
    and c: "list_all (\<lambda>k. has_code (fst (generate_short_code 6 rng (pos + 6 * k))) d) [0..<10]"
  have "generate_unique_short_code d 6 10 rng pos = (None, pos + 10 * 6)"
    using c by (rule gen_unique_exhausted)
  with v show "shorten_url rng pos now (Some [(''url'', JStr u)]) d =
        (JsonResponse 500 [(''error'', JStr ''Unable to generate unique short code'')],
         pos + 10 * 6, d)"
    by (simp add: shorten_url_def error_body_def)
qed

theorem create_bounded_witness:
  "is_valid_url ''https://example.com'' \<and>
   list_all (\<lambda>k. has_code (fst (generate_short_code 6 (\<lambda>i. 0) (0 + 6 * k)))
       [\<lparr>short_code = ''aaaaaa'', original_url = ''http://a.com'', created_at = 1,
          click_count = SqlInteger 0\<rparr>]) [0..<10] \<and>
   shorten_url (\<lambda>i. 0) 0 2 (Some [(''url'', JStr ''https://example.com'')])
       [\<lparr>short_code = ''aaaaaa'', original_url = ''http://a.com'', created_at = 1,
          click_count = SqlInteger 0\<rparr>] =
     (JsonResponse 500 [(''error'', JStr ''Unable to generate unique short code'')], 60,
       [\<lparr>short_code = ''aaaaaa'', original_url = ''http://a.com'', created_at = 1,
          click_count = SqlInteger 0\<rparr>])"
proof -
  have c: "list_all (\<lambda>k. has_code (fst (generate_short_code 6 (\<lambda>i. 0) (0 + 6 * k)))
       [\<lparr>short_code = ''aaaaaa'', original_url = ''http://a.com'', created_at = 1,
          click_count = SqlInteger 0\<rparr>]) [0..<10]"
    by (simp add: all_a has_code_def list_all_iff)
  show ?thesis
    using example_valid c
      create_bounded [of "\<lambda>i. 0" 0 2 None _ "''https://example.com''"]
    by simp
qed

text \<open>
  C6. For every table and every code that no row has (well-formed or not): the get
  returns \<open>None\<close>, and the visit returns \<open>False\<close> and leaves the whole table as it is,
  so it adds no row and changes no counter.
\<close>

theorem not_found:
  "\<not> has_code c d \<Longrightarrow>
     get_url_mapping c d = None \<and> increment_click_count c d = (False, d)"
  by (auto simp: get_None_iff increment_click_count_def has_code_iff intro!: map_idI)

theorem not_found_witness:
  "validate_short_code ''zzzzzz'' \<and>
   \<not> has_code ''zzzzzz'' [\<lparr>short_code = ''abc123'', original_url = ''http://a.com'',
                             created_at = 1, click_count = SqlInteger 4\<rparr>] \<and>
   get_url_mapping ''zzzzzz'' [\<lparr>short_code = ''abc123'', original_url = ''http://a.com'',
                             created_at = 1, click_count = SqlInteger 4\<rparr>] = None \<and>
   increment_click_count ''zzzzzz'' [\<lparr>short_code = ''abc123'', original_url = ''http://a.com'',
                             created_at = 1, click_count = SqlInteger 4\<rparr>] =
     (False, [\<lparr>short_code = ''abc123'', original_url = ''http://a.com'',
                created_at = 1, click_count = SqlInteger 4\<rparr>])"
proof -
  have v: "validate_short_code ''zzzzzz''" by code_simp
  have h: "\<not> has_code ''zzzzzz'' [\<lparr>short_code = ''abc123'', original_url = ''http://a.com'',
                             created_at = 1, click_count = SqlInteger 4\<rparr>]"
    by (simp add: has_code_def)
  show ?thesis using v h not_found[OF h] by simp
qed



text \<open>
  C8. \<open>sanitize_url\<close> is idempotent.
\<close>

theorem sanitize_url_idempotent: "sanitize_url (sanitize_url x) = sanitize_url x"
proof (cases "x = []")
  case True
  then show ?thesis by (simp add: sanitize_url_def)
next
  case False
  let ?u = "strip x"
  have cu: "clean ?u" by (rule clean_strip)
  show ?thesis
  proof (cases "?u \<noteq> [] \<and> \<not> (startswith ?u ''http://'' \<or> startswith ?u ''https://'')")
    case True
    then have r: "sanitize_url x = ''http://'' @ ?u"
      using False by (simp add: sanitize_url_def Let_def)
    have "clean (''http://'' @ ?u)" using True cu clean_prepend [of ?u] by blast
    then have "strip (''http://'' @ ?u) = ''http://'' @ ?u" by (rule strip_clean)
    then have "sanitize_url (''http://'' @ ?u) = ''http://'' @ ?u"
      using startswith_prepend[of ?u] by (simp add: sanitize_url_def Let_def)
    with r show ?thesis by simp
  next
    case False2: False
    then have r: "sanitize_url x = ?u" using False by (auto simp add: sanitize_url_def Let_def)
    have s: "strip ?u = ?u" using cu by (rule strip_clean)
    have "sanitize_url ?u = ?u"
      using False2 s by (auto simp add: sanitize_url_def Let_def)
    with r show ?thesis by simp
  qed
qed

text \<open>
  C9. \<open>is_valid_url\<close> on the six boundary inputs: it rejects \<open>not-a-url\<close>,
  \<open>ftp://example.com\<close>, \<open>https://\<close> and \<open>http://.com\<close>, and it accepts
  \<open>https://www.example.com\<close> and \<open>http://192.168.1.1:8080\<close>.
\<close>

theorem validator_boundary_cases:
  "\<not> is_valid_url ''not-a-url'' \<and> \<not> is_valid_url ''ftp://example.com'' \<and>
   \<not> is_valid_url ''https://'' \<and> \<not> is_valid_url ''http://.com'' \<and>
   is_valid_url ''https://www.example.com'' \<and> is_valid_url ''http://192.168.1.1:8080''"
  using v1 v2 v3 v4 v5 v6 by blast

text \<open>
  C10. \<open>validate_short_code\<close> accepts a string of six characters that are not in
  \<open>[A-Za-z0-9]\<close>: six times the letter e with acute accent, U+00E9.
\<close>

theorem validate_short_code_non_ascii:
  "validate_short_code (replicate 6 (CHR 0xE9)) \<and> length (replicate 6 (CHR 0xE9)) = 6
     \<and> \<not> ascii_alnum (CHR 0xE9)"
  by code_simp

end
